theory Spec2Isabelle
  imports Main "HOL-Library.Word" "HOL-Library.Code_Target_Nat"
begin

unbundle bit_operations_syntax

section \<open>Values of the runtime\<close>

text \<open>
  A JavaScript string is modelled as the list of its UTF-16 code units (natural numbers
  below 65536), a \<^verbatim>\<open>Uint8Array\<close> as a list of 8-bit words. \<open>str\<close> turns an Isabelle
  string literal into such a string, so that \<open>str ''/a''\<close> is the list \<open>[47, 97]\<close>.
  Every \<^verbatim>\<open>throw\<close> of the program and of the library functions it calls is a value of
  type \<open>error\<close>; a computation that may throw returns \<open>error + 'a\<close>, with \<open>Inl\<close> the
  thrown error.
\<close>

type_synonym jsstring = "nat list"

type_synonym byte = "8 word"

definition str :: "string \<Rightarrow> jsstring" where
  "str s = map of_char s"

datatype error =
    NotFound jsstring
  | TypeError jsstring
  | InvalidCharacterError
  | URIError
  | IOError jsstring

definition emit :: "'a \<Rightarrow> error + 'a list \<Rightarrow> error + 'a list" where
  "emit x r = (case r of Inl e \<Rightarrow> Inl e | Inr xs \<Rightarrow> Inr (x # xs))"

definition emit_all :: "'a list \<Rightarrow> error + 'a list \<Rightarrow> error + 'a list" where
  "emit_all ys r = (case r of Inl e \<Rightarrow> Inl e | Inr xs \<Rightarrow> Inr (ys @ xs))"

section \<open>The imported library: URLs and POSIX paths\<close>

text \<open>
  \<^verbatim>\<open>mod.ts\<close> imports \<^verbatim>\<open>toFileUrl\<close> and \<^verbatim>\<open>fromFileUrl\<close> from the POSIX half of
  \<^verbatim>\<open>std@0.167.0/path\<close>; both go through the runtime's \<^verbatim>\<open>URL\<close> class. The definitions of
  this section follow the URL Standard's path state for a \<^verbatim>\<open>file:\<close> URL with an empty
  host: the input is read as scalar values (a lone surrogate becomes U+FFFD), tabs and
  newlines are dropped, \<^verbatim>\<open>/\<close> and \<^verbatim>\<open>\\<close> end a segment, \<^verbatim>\<open>.\<close> and \<^verbatim>\<open>..\<close> segments are
  resolved, a leading drive letter \<^verbatim>\<open>C|\<close> becomes \<^verbatim>\<open>C:\<close>, and every code point of the path
  percent-encode set is written as the percent-encoded bytes of its UTF-8 form.
\<close>

definition surrogate :: "nat \<Rightarrow> bool" where
  "surrogate c = (0xD800 \<le> c \<and> c \<le> 0xDFFF)"

fun code_points :: "jsstring \<Rightarrow> nat list" where
  "code_points [] = []"
| "code_points [c] = [if surrogate c then 0xFFFD else c]"
| "code_points (c # d # cs) =
     (if 0xD800 \<le> c \<and> c \<le> 0xDBFF \<and> 0xDC00 \<le> d \<and> d \<le> 0xDFFF
      then (0x10000 + (c - 0xD800) * 0x400 + (d - 0xDC00)) # code_points cs
      else (if surrogate c then 0xFFFD else c) # code_points (d # cs))"

definition utf16_encode :: "nat \<Rightarrow> jsstring" where
  "utf16_encode cp =
     (if cp < 0x10000 then [cp]
      else [0xD800 + (cp - 0x10000) div 0x400, 0xDC00 + (cp - 0x10000) mod 0x400])"

definition utf8_encode :: "nat \<Rightarrow> nat list" where
  "utf8_encode cp =
     (if cp < 0x80 then [cp]
      else if cp < 0x800 then [0xC0 + cp div 0x40, 0x80 + cp mod 0x40]
      else if cp < 0x10000 then
        [0xE0 + cp div 0x1000, 0x80 + (cp div 0x40) mod 0x40, 0x80 + cp mod 0x40]
      else
        [0xF0 + cp div 0x40000, 0x80 + (cp div 0x1000) mod 0x40,
         0x80 + (cp div 0x40) mod 0x40, 0x80 + cp mod 0x40])"

definition hex_upper :: "nat \<Rightarrow> nat" where
  "hex_upper n = str ''0123456789ABCDEF'' ! (n mod 16)"

definition percent_byte :: "nat \<Rightarrow> jsstring" where
  "percent_byte b = [37, hex_upper (b div 16), hex_upper (b mod 16)]"

definition path_percent_encode_set :: "nat \<Rightarrow> bool" where
  "path_percent_encode_set c =
     (c \<le> 0x1F \<or> 0x7E < c \<or> c = 0x20 \<or> c = 0x22 \<or> c = 0x23 \<or> c = 0x3C \<or> c = 0x3E
      \<or> c = 0x3F \<or> c = 0x60 \<or> c = 0x7B \<or> c = 0x7D)"

definition utf8_percent_encode :: "nat \<Rightarrow> jsstring" where
  "utf8_percent_encode c =
     (if path_percent_encode_set c then concat (map percent_byte (utf8_encode c)) else [c])"

fun split_segments :: "nat list \<Rightarrow> nat list list" where
  "split_segments [] = [[]]"
| "split_segments (c # cs) =
     (if c = 47 \<or> c = 92 then [] # split_segments cs
      else (case split_segments cs of [] \<Rightarrow> [[c]] | s # ss \<Rightarrow> (c # s) # ss))"

definition single_dot_segment :: "jsstring \<Rightarrow> bool" where
  "single_dot_segment b = (b = str ''.'' \<or> b = str ''%2e'' \<or> b = str ''%2E'')"

definition double_dot_segment :: "jsstring \<Rightarrow> bool" where
  "double_dot_segment b =
     (b = str ''..'' \<or> b = str ''.%2e'' \<or> b = str ''.%2E'' \<or> b = str ''%2e.''
      \<or> b = str ''%2E.'' \<or> b = str ''%2e%2e'' \<or> b = str ''%2e%2E''
      \<or> b = str ''%2E%2e'' \<or> b = str ''%2E%2E'')"

definition ascii_alpha :: "nat \<Rightarrow> bool" where
  "ascii_alpha c = ((65 \<le> c \<and> c \<le> 90) \<or> (97 \<le> c \<and> c \<le> 122))"

definition windows_drive_letter :: "jsstring \<Rightarrow> bool" where
  "windows_drive_letter b =
     (case b of [a, s] \<Rightarrow> ascii_alpha a \<and> (s = 58 \<or> s = 124) | _ \<Rightarrow> False)"

definition normalized_windows_drive_letter :: "jsstring \<Rightarrow> bool" where
  "normalized_windows_drive_letter b =
     (case b of [a, s] \<Rightarrow> ascii_alpha a \<and> s = 58 | _ \<Rightarrow> False)"

definition shorten_path :: "jsstring list \<Rightarrow> jsstring list" where
  "shorten_path p =
     (case p of
        [s] \<Rightarrow> if normalized_windows_drive_letter s then p else []
      | _ \<Rightarrow> butlast p)"

fun path_state :: "jsstring list \<Rightarrow> nat list list \<Rightarrow> jsstring list" where
  "path_state p [] = p"
| "path_state p (seg # segs) =
     (let buf = concat (map utf8_percent_encode seg); final = (segs = []) in
      path_state
        (if double_dot_segment buf then
           (if final then shorten_path p @ [[]] else shorten_path p)
         else if single_dot_segment buf then
           (if final then p @ [[]] else p)
         else p @ [if p = [] \<and> windows_drive_letter buf then [hd buf, 58] else buf])
        segs)"

definition serialize_path :: "jsstring list \<Rightarrow> jsstring" where
  "serialize_path p = concat (map (\<lambda>s. 47 # s) p)"

definition tab_or_newline :: "nat \<Rightarrow> bool" where
  "tab_or_newline c = (c = 9 \<or> c = 10 \<or> c = 13)"

text \<open>
  \<open>URL_set_pathname v\<close> is the \<^verbatim>\<open>pathname\<close> of \<^verbatim>\<open>new URL("file:///")\<close> after the assignment
  \<^verbatim>\<open>url.pathname = v\<close>: the setter parses from the path start state, where \<^verbatim>\<open>?\<close> and \<^verbatim>\<open>#\<close>
  do not end the path but are percent-encoded. \<open>URL_file_pathname rel\<close> is the \<^verbatim>\<open>pathname\<close>
  of \<^verbatim>\<open>new URL("file:///" + rel)\<close>: the constructor strips trailing spaces and control
  characters, and the path ends at the first \<^verbatim>\<open>?\<close> or \<^verbatim>\<open>#\<close>, where the query or the
  fragment begins.
\<close>

definition URL_set_pathname :: "jsstring \<Rightarrow> jsstring" where
  "URL_set_pathname v =
     (let cs = filter (\<lambda>c. \<not> tab_or_newline c) (code_points v);
          rest = (case cs of [] \<Rightarrow> [] | c # r \<Rightarrow> if c = 47 \<or> c = 92 then r else cs)
      in serialize_path (path_state [] (split_segments rest)))"

definition URL_file_pathname :: "jsstring \<Rightarrow> jsstring" where
  "URL_file_pathname rel =
     (let trimmed = rev (dropWhile (\<lambda>c. c \<le> 0x20) (rev (code_points rel)));
          cs = filter (\<lambda>c. \<not> tab_or_newline c) trimmed;
          p = takeWhile (\<lambda>c. c \<noteq> 63 \<and> c \<noteq> 35) cs
      in serialize_path (path_state [] (split_segments p)))"

record url =
  href :: jsstring

definition isAbsolute :: "jsstring \<Rightarrow> bool" where
  "isAbsolute p = (p \<noteq> [] \<and> hd p = 47)"

definition replaceAll :: "nat \<Rightarrow> jsstring \<Rightarrow> jsstring \<Rightarrow> jsstring" where
  "replaceAll c new s = concat (map (\<lambda>d. if d = c then new else [d]) s)"

definition encodeWhitespace :: "jsstring \<Rightarrow> jsstring" where
  "encodeWhitespace s =
     concat (map (\<lambda>c.
       if c = 0x09 then str ''%09'' else if c = 0x0A then str ''%0A''
       else if c = 0x0B then str ''%0B'' else if c = 0x0C then str ''%0C''
       else if c = 0x0D then str ''%0D'' else if c = 0x20 then str ''%20''
       else [c]) s)"

text \<open>
  \<^verbatim>\<open>posix.toFileUrl(path)\<close>: throws unless the path is absolute, escapes \<^verbatim>\<open>%\<close>, \<^verbatim>\<open>\\<close> and
  white space, assigns the result to the \<^verbatim>\<open>pathname\<close> of \<^verbatim>\<open>file:///\<close> and returns the URL.
\<close>

definition toFileUrl :: "jsstring \<Rightarrow> error + url" where
  "toFileUrl p =
     (if \<not> isAbsolute p then Inl (TypeError (str ''Must be an absolute path.''))
      else Inr \<lparr>href = str ''file://'' @
        URL_set_pathname (encodeWhitespace
          (replaceAll 92 (str ''%5C'') (replaceAll 37 (str ''%25'') p)))\<rparr>)"

definition hex_value :: "nat \<Rightarrow> nat option" where
  "hex_value c =
     (if 48 \<le> c \<and> c \<le> 57 then Some (c - 48)
      else if 65 \<le> c \<and> c \<le> 70 then Some (c - 55)
      else if 97 \<le> c \<and> c \<le> 102 then Some (c - 87)
      else None)"

definition escape_byte :: "jsstring \<Rightarrow> (nat \<times> jsstring) option" where
  "escape_byte s =
     (case s of
        h1 # h2 # r \<Rightarrow>
          (case hex_value h1 of
             None \<Rightarrow> None
           | Some a \<Rightarrow> (case hex_value h2 of None \<Rightarrow> None | Some b \<Rightarrow> Some (a * 16 + b, r)))
      | _ \<Rightarrow> None)"

fun escape_stray_percent :: "jsstring \<Rightarrow> jsstring" where
  "escape_stray_percent [] = []"
| "escape_stray_percent (c # s) =
     (if c = 37 \<and> escape_byte s = None then str ''%25'' @ escape_stray_percent s
      else c # escape_stray_percent s)"

definition continuation :: "nat \<Rightarrow> bool" where
  "continuation b = (0x80 \<le> b \<and> b \<le> 0xBF)"

definition utf8_code_point :: "nat list \<Rightarrow> nat option" where
  "utf8_code_point octets =
     (case octets of
        [b0, b1] \<Rightarrow>
          if 0xC2 \<le> b0 \<and> b0 \<le> 0xDF \<and> continuation b1
          then Some ((b0 - 0xC0) * 0x40 + (b1 - 0x80)) else None
      | [b0, b1, b2] \<Rightarrow>
          if 0xE0 \<le> b0 \<and> b0 \<le> 0xEF \<and> continuation b1 \<and> continuation b2
             \<and> (b0 = 0xE0 \<longrightarrow> 0xA0 \<le> b1) \<and> (b0 = 0xED \<longrightarrow> b1 \<le> 0x9F)
          then Some ((b0 - 0xE0) * 0x1000 + (b1 - 0x80) * 0x40 + (b2 - 0x80)) else None
      | [b0, b1, b2, b3] \<Rightarrow>
          if 0xF0 \<le> b0 \<and> b0 \<le> 0xF4 \<and> continuation b1 \<and> continuation b2 \<and> continuation b3
             \<and> (b0 = 0xF0 \<longrightarrow> 0x90 \<le> b1) \<and> (b0 = 0xF4 \<longrightarrow> b1 \<le> 0x8F)
          then Some ((b0 - 0xF0) * 0x40000 + (b1 - 0x80) * 0x1000 + (b2 - 0x80) * 0x40
                 + (b3 - 0x80)) else None
      | _ \<Rightarrow> None)"

text \<open>
  \<^verbatim>\<open>decodeURIComponent\<close>: every \<^verbatim>\<open>%XX\<close> escape is a byte; a byte below \<^verbatim>\<open>0x80\<close> is a
  character, a lead byte announces how many escapes follow, and the bytes together must
  be the UTF-8 form of one code point. \<open>decodeURI_loop octets k s\<close> reads \<open>s\<close> with
  \<open>octets\<close> already collected and \<open>k\<close> more escapes expected.
\<close>

function decodeURI_loop :: "nat list \<Rightarrow> nat \<Rightarrow> jsstring \<Rightarrow> error + jsstring" where
  "decodeURI_loop octets 0 [] = Inr []"
| "decodeURI_loop octets (Suc k) [] = Inl URIError"
| "decodeURI_loop octets 0 (c # s) =
     (if c \<noteq> 37 then emit c (decodeURI_loop [] 0 s)
      else (case escape_byte s of
              None \<Rightarrow> Inl URIError
            | Some (b, r) \<Rightarrow>
                if b < 0x80 then emit b (decodeURI_loop [] 0 r)
                else if b < 0xC0 \<or> 0xF8 \<le> b then Inl URIError
                else decodeURI_loop [b] (if b < 0xE0 then 1 else if b < 0xF0 then 2 else 3) r))"
| "decodeURI_loop octets (Suc k) (c # s) =
     (if c \<noteq> 37 then Inl URIError
      else (case escape_byte s of
              None \<Rightarrow> Inl URIError
            | Some (b, r) \<Rightarrow>
                if k \<noteq> 0 then decodeURI_loop (octets @ [b]) k r
                else (case utf8_code_point (octets @ [b]) of
                        None \<Rightarrow> Inl URIError
                      | Some v \<Rightarrow> emit_all (utf16_encode v) (decodeURI_loop [] 0 r))))"
  by pat_completeness auto

lemma escape_byte_shorter: "escape_byte s = Some (b, r) \<Longrightarrow> length r < length s"
  by (auto simp: escape_byte_def split: list.splits option.splits)

termination decodeURI_loop
  by (relation "measure (\<lambda>(octets, k, s). length s)") (auto dest: escape_byte_shorter)

definition decodeURIComponent :: "jsstring \<Rightarrow> error + jsstring" where
  "decodeURIComponent s = decodeURI_loop [] 0 s"

text \<open>
  \<^verbatim>\<open>posix.fromFileUrl\<close> is only ever called on the template string
  \<^verbatim>\<open>`file:///${rel}`\<close>; \<open>fromFileUrl_rooted rel\<close> is that call. The protocol of such a URL
  is always \<^verbatim>\<open>file:\<close>, so the library's protocol check never throws.
\<close>

definition fromFileUrl_rooted :: "jsstring \<Rightarrow> error + jsstring" where
  "fromFileUrl_rooted rel =
     decodeURIComponent (escape_stray_percent (URL_file_pathname rel))"

text \<open>
  A character is plain when it is printable ASCII and none of the characters that
  \<open>toFileUrl\<close>, the URL parser or \<^verbatim>\<open>decodeURIComponent\<close> treat specially; a path is plain
  when it is absolute, made of plain characters, and has no segment \<^verbatim>\<open>.\<close> or \<^verbatim>\<open>..\<close>.
\<close>

definition plain_char :: "nat \<Rightarrow> bool" where
  "plain_char c =
     (0x21 \<le> c \<and> c \<le> 0x7E \<and> c \<noteq> 0x22 \<and> c \<noteq> 0x23 \<and> c \<noteq> 0x25 \<and> c \<noteq> 0x3C
      \<and> c \<noteq> 0x3E \<and> c \<noteq> 0x3F \<and> c \<noteq> 0x5C \<and> c \<noteq> 0x60 \<and> c \<noteq> 0x7B \<and> c \<noteq> 0x7C
      \<and> c \<noteq> 0x7D)"

definition plain_path :: "jsstring \<Rightarrow> bool" where
  "plain_path p =
     (isAbsolute p \<and> list_all plain_char p
      \<and> list_all (\<lambda>seg. seg \<noteq> str ''.'' \<and> seg \<noteq> str ''..'') (split_segments (tl p)))"

section \<open>The imported library: base64\<close>

text \<open>
  \<^verbatim>\<open>base64.encode\<close> of \<^verbatim>\<open>std@0.167.0/encoding/base64.ts\<close> walks the bytes three at a time
  and writes four characters of \<^verbatim>\<open>base64abc\<close> for each group, padding a last group of
  one or two bytes with \<^verbatim>\<open>=\<close>. \<^verbatim>\<open>base64.decode\<close> calls the runtime's \<^verbatim>\<open>atob\<close> (the forgiving
  base64 decoding of the platform: white space is removed, padding is optional, any other
  character or a length of 1 modulo 4 throws) and copies the character codes of the
  result into a \<^verbatim>\<open>Uint8Array\<close>.
\<close>

definition base64abc :: "jsstring" where
  "base64abc = str ''ABCDEFGHIJKLMNOPQRSTUVWXYZabcdefghijklmnopqrstuvwxyz0123456789+/''"

fun base64_encode :: "byte list \<Rightarrow> jsstring" where
  "base64_encode (a # b # c # rest) =
     [base64abc ! unat (drop_bit 2 a),
      base64abc ! unat (push_bit 4 (a AND 0x03) OR drop_bit 4 b),
      base64abc ! unat (push_bit 2 (b AND 0x0f) OR drop_bit 6 c),
      base64abc ! unat (c AND 0x3f)] @ base64_encode rest"
| "base64_encode [a, b] =
     [base64abc ! unat (drop_bit 2 a),
      base64abc ! unat (push_bit 4 (a AND 0x03) OR drop_bit 4 b),
      base64abc ! unat (push_bit 2 (b AND 0x0f)),
      61]"
| "base64_encode [a] =
     [base64abc ! unat (drop_bit 2 a),
      base64abc ! unat (push_bit 4 (a AND 0x03)),
      61, 61]"
| "base64_encode [] = []"

definition ascii_whitespace :: "nat \<Rightarrow> bool" where
  "ascii_whitespace c = (c = 0x09 \<or> c = 0x0A \<or> c = 0x0C \<or> c = 0x0D \<or> c = 0x20)"

definition base64_index :: "nat \<Rightarrow> nat option" where
  "base64_index c =
     (if 65 \<le> c \<and> c \<le> 90 then Some (c - 65)
      else if 97 \<le> c \<and> c \<le> 122 then Some (c - 71)
      else if 48 \<le> c \<and> c \<le> 57 then Some (c + 4)
      else if c = 43 then Some 62
      else if c = 47 then Some 63
      else None)"

definition remove_padding :: "jsstring \<Rightarrow> jsstring" where
  "remove_padding d =
     (if length d mod 4 = 0 then
        (if 2 \<le> length d \<and> last d = 61 \<and> last (butlast d) = 61 then butlast (butlast d)
         else if d \<noteq> [] \<and> last d = 61 then butlast d
         else d)
      else d)"

fun sextets_to_bytes :: "nat list \<Rightarrow> nat list" where
  "sextets_to_bytes (a # b # c # d # rest) =
     [a * 4 + b div 16, (b mod 16) * 16 + c div 4, (c mod 4) * 64 + d] @ sextets_to_bytes rest"
| "sextets_to_bytes [a, b, c] = [a * 4 + b div 16, (b mod 16) * 16 + c div 4]"
| "sextets_to_bytes [a, b] = [a * 4 + b div 16]"
| "sextets_to_bytes _ = []"

definition atob :: "jsstring \<Rightarrow> error + jsstring" where
  "atob data =
     (let d = remove_padding (filter (\<lambda>c. \<not> ascii_whitespace c) data) in
      if length d mod 4 = 1 then Inl InvalidCharacterError
      else if list_ex (\<lambda>c. base64_index c = None) d then Inl InvalidCharacterError
      else Inr (sextets_to_bytes (map (\<lambda>c. the (base64_index c)) d)))"

definition base64_decode :: "jsstring \<Rightarrow> error + byte list" where
  "base64_decode b64 =
     (case atob b64 of
        Inl e \<Rightarrow> Inl e
      | Inr binString \<Rightarrow> Inr (map of_nat binString))"



section \<open>The runtime's UTF-8 decoder\<close>

text \<open>
  \<^verbatim>\<open>new TextDecoder("utf-8", {fatal}).decode(raw)\<close>, after the Encoding Standard. The
  decoder keeps the code point under construction, the bytes seen and needed, and the
  bounds of the next byte. On a malformed sequence it throws a \<^verbatim>\<open>TypeError\<close> when
  \<open>fatal\<close> is set and writes U+FFFD otherwise; a byte that breaks a sequence is read again
  as the start of the next one. A byte order mark at the start of the output is dropped
  (\<^verbatim>\<open>ignoreBOM\<close> is left at its default), and the code points are written as UTF-16.
  In the decoder \<open>byte mod 0x20\<close> is \<^verbatim>\<open>byte & 0x1F\<close>, and \<open>cp * 0x40 + byte mod 0x40\<close> is
  \<^verbatim>\<open>(cp << 6) | (byte & 0x3F)\<close>.
\<close>

definition decode_error :: "bool \<Rightarrow> error + nat list \<Rightarrow> error + nat list" where
  "decode_error fatal rest =
     (if fatal then Inl (TypeError (str ''The encoded data is not valid.''))
      else emit 0xFFFD rest)"

fun utf8_decoder ::
  "bool \<Rightarrow> nat \<times> nat \<times> nat \<times> nat \<times> nat \<Rightarrow> byte list \<Rightarrow> error + nat list" where
  "utf8_decoder fatal (cp, seen, needed, lower, upper) [] =
     (if needed \<noteq> 0 then decode_error fatal (Inr []) else Inr [])"
| "utf8_decoder fatal (cp, seen, needed, lower, upper) (b # bs) =
     (if needed = 0 then
        (if unat b \<le> 0x7F then emit (unat b) (utf8_decoder fatal (0, 0, 0, 0x80, 0xBF) bs)
         else if 0xC2 \<le> unat b \<and> unat b \<le> 0xDF then
           utf8_decoder fatal (unat b mod 0x20, 0, 1, 0x80, 0xBF) bs
         else if 0xE0 \<le> unat b \<and> unat b \<le> 0xEF then
           utf8_decoder fatal
             (unat b mod 0x10, 0, 2,
              if unat b = 0xE0 then 0xA0 else 0x80, if unat b = 0xED then 0x9F else 0xBF) bs
         else if 0xF0 \<le> unat b \<and> unat b \<le> 0xF4 then
           utf8_decoder fatal
             (unat b mod 0x08, 0, 3,
              if unat b = 0xF0 then 0x90 else 0x80, if unat b = 0xF4 then 0x8F else 0xBF) bs
         else decode_error fatal (utf8_decoder fatal (0, 0, 0, 0x80, 0xBF) bs))
      else if unat b < lower \<or> upper < unat b then
        decode_error fatal (utf8_decoder fatal (0, 0, 0, 0x80, 0xBF) (b # bs))
      else if seen + 1 \<noteq> needed then
        utf8_decoder fatal (cp * 0x40 + unat b mod 0x40, seen + 1, needed, 0x80, 0xBF) bs
      else
        emit (cp * 0x40 + unat b mod 0x40) (utf8_decoder fatal (0, 0, 0, 0x80, 0xBF) bs))"

definition TextDecoder_decode :: "bool \<Rightarrow> byte list \<Rightarrow> error + jsstring" where
  "TextDecoder_decode fatal raw =
     (case utf8_decoder fatal (0, 0, 0, 0x80, 0xBF) raw of
        Inl e \<Rightarrow> Inl e
      | Inr cps \<Rightarrow>
          Inr (concat (map utf16_encode
            (case cps of [] \<Rightarrow> [] | c # r \<Rightarrow> if c = 0xFEFF then r else cps))))"

section \<open>The environment\<close>

text \<open>
  What the program reads from outside is a parameter of the model. \<open>fs_expandGlob glob root\<close>
  is the enumeration \<^verbatim>\<open>expandGlob(glob, { root, globstar: true })\<close> of \<^verbatim>\<open>std/fs\<close>: the walk
  entries it delivers, in its order, and the error it ends with if the walk fails. Of a
  walk entry the program reads \<^verbatim>\<open>path\<close> (here \<open>file_path\<close>), \<^verbatim>\<open>isFile\<close> and \<^verbatim>\<open>isSymlink\<close>.
  \<open>Deno_readFile\<close> is \<^verbatim>\<open>Deno.readFile\<close> on the file system of the run, which is taken
  to stay as it is while the run lasts; \<open>relative\<close> is
  \<^verbatim>\<open>path.relative\<close> of the host system, and \<open>globToRegExp glob\<close> is the test
  \<^verbatim>\<open>globToRegExp(glob).test\<close> of the compiled pattern: the library builds the expression
  without the global and sticky flags, so the test is a function of the string alone.
\<close>

record WalkEntry =
  file_path :: jsstring
  isFile :: bool
  isSymlink :: bool

record platform =
  fs_expandGlob :: "jsstring \<Rightarrow> jsstring \<Rightarrow> WalkEntry list \<times> error option"
  Deno_readFile :: "jsstring \<Rightarrow> error + byte list"
  relative :: "jsstring \<Rightarrow> jsstring \<Rightarrow> jsstring"
  globToRegExp :: "jsstring \<Rightarrow> jsstring \<Rightarrow> bool"

section \<open>Asset discovery\<close>

record IArchiveAssetReference =
  path :: jsstring
  contents :: jsstring

record IAssetReference =
  systemPath :: jsstring
  asset :: IArchiveAssetReference

text \<open>
  \<^verbatim>\<open>generateAssetReferences\<close> is an asynchronous generator. Its model is the run of a
  consumer that reads it to the end: the references yielded, in order, and the error the
  generator threw, if it did. \<open>file_loop\<close> is the inner \<^verbatim>\<open>for await\<close> over the entries of
  one glob; it also returns the array \<^verbatim>\<open>files\<close>, which the outer loop carries to the next
  glob. A failing \<^verbatim>\<open>Deno.readFile\<close> or \<^verbatim>\<open>fromFileUrl\<close> ends the generator after
  \<^verbatim>\<open>files.push\<close> and before the \<^verbatim>\<open>yield\<close>.
\<close>

fun file_loop ::
  "platform \<Rightarrow> jsstring \<Rightarrow> bool \<Rightarrow> jsstring list \<Rightarrow> WalkEntry list
     \<Rightarrow> jsstring list \<times> IAssetReference list \<times> error option" where
  "file_loop pf cwd allowDuplicates files [] = (files, [], None)"
| "file_loop pf cwd allowDuplicates files (file # rest) =
     (if isFile file \<and> \<not> isSymlink file
         \<and> (allowDuplicates \<or> file_path file \<notin> set files)
      then
        (let files' = files @ [file_path file];
             rel = relative pf cwd (file_path file)
         in case Deno_readFile pf (file_path file) of
              Inl e \<Rightarrow> (files', [], Some e)
            | Inr fileContents \<Rightarrow>
                (case fromFileUrl_rooted rel of
                   Inl e \<Rightarrow> (files', [], Some e)
                 | Inr p \<Rightarrow>
                     (case file_loop pf cwd allowDuplicates files' rest of
                        (files'', refs, err) \<Rightarrow>
                          (files'',
                           \<lparr>systemPath = file_path file,
                            asset = \<lparr>path = p, contents = base64_encode fileContents\<rparr>\<rparr>
                             # refs,
                           err))))
      else file_loop pf cwd allowDuplicates files rest)"

fun glob_loop ::
  "platform \<Rightarrow> jsstring \<Rightarrow> bool \<Rightarrow> jsstring list \<Rightarrow> jsstring list
     \<Rightarrow> IAssetReference list \<times> error option" where
  "glob_loop pf cwd allowDuplicates files [] = ([], None)"
| "glob_loop pf cwd allowDuplicates files (glob # globs) =
     (case fs_expandGlob pf glob cwd of
        (entries, walk_error) \<Rightarrow>
          (case file_loop pf cwd allowDuplicates files entries of
             (files', refs, Some e) \<Rightarrow> (refs, Some e)
           | (files', refs, None) \<Rightarrow>
               (case walk_error of
                  Some e \<Rightarrow> (refs, Some e)
                | None \<Rightarrow>
                    (case glob_loop pf cwd allowDuplicates files' globs of
                       (refs', err) \<Rightarrow> (refs @ refs', err)))))"

definition generateAssetReferences ::
  "platform \<Rightarrow> jsstring \<Rightarrow> jsstring list \<Rightarrow> bool \<Rightarrow> IAssetReference list \<times> error option" where
  "generateAssetReferences pf cwd globs allowDuplicates =
     glob_loop pf cwd allowDuplicates [] globs"



section \<open>The archive reader\<close>

text \<open>
  An \<^verbatim>\<open>ArchiveReader\<close> holds the array \<^verbatim>\<open>assets\<close>. A path argument is a string or a
  \<^verbatim>\<open>URL\<close>; of a \<^verbatim>\<open>URL\<close> the reader reads only \<^verbatim>\<open>href\<close>.
\<close>

record ArchiveReader =
  assets :: "IArchiveAssetReference list"

datatype path_arg = PathString jsstring | PathURL url

definition decodeBuffer :: "byte list \<Rightarrow> error + jsstring" where
  "decodeBuffer raw = TextDecoder_decode False raw"

definition toPathString :: "path_arg \<Rightarrow> error + jsstring" where
  "toPathString p =
     (case p of
        PathURL u \<Rightarrow> Inr (href u)
      | PathString s \<Rightarrow> (case toFileUrl s of Inl e \<Rightarrow> Inl e | Inr u \<Rightarrow> Inr (href u)))"

text \<open>
  \<^verbatim>\<open>this.assets.find(e => this.#toPathString(e.path) === comparePath)\<close>: the records are
  visited in order, and a predicate that throws ends the search with its error.
\<close>

fun find_asset ::
  "jsstring \<Rightarrow> IArchiveAssetReference list \<Rightarrow> error + IArchiveAssetReference option" where
  "find_asset comparePath [] = Inr None"
| "find_asset comparePath (e # es) =
     (case toPathString (PathString (path e)) of
        Inl err \<Rightarrow> Inl err
      | Inr h \<Rightarrow> if h = comparePath then Inr (Some e) else find_asset comparePath es)"

definition readFileSync :: "ArchiveReader \<Rightarrow> path_arg \<Rightarrow> error + byte list" where
  "readFileSync this p =
     (case toPathString p of
        Inl err \<Rightarrow> Inl err
      | Inr comparePath \<Rightarrow>
          (case find_asset comparePath (assets this) of
             Inl err \<Rightarrow> Inl err
           | Inr None \<Rightarrow> Inl (NotFound (str ''File not found: '' @ comparePath))
           | Inr (Some file) \<Rightarrow> base64_decode (contents file)))"

definition readTextFileSync :: "ArchiveReader \<Rightarrow> path_arg \<Rightarrow> error + jsstring" where
  "readTextFileSync this p =
     (case readFileSync this p of
        Inl err \<Rightarrow> Inl err
      | Inr raw \<Rightarrow> decodeBuffer raw)"

text \<open>
  Promises. Nothing in the reader suspends, so a promise is settled when the call returns:
  it is fulfilled with a value or rejected with an error. A call that returns a promise
  has the type \<open>error + 'a promise\<close>, with \<open>Inl\<close> for an error thrown synchronously by the
  call itself. \<open>new_Promise\<close> is the constructor applied to an executor that has called
  \<^verbatim>\<open>resolve\<close>, called \<^verbatim>\<open>reject\<close>, or thrown; \<open>async\<close> wraps the body of an \<^verbatim>\<open>async\<close>
  function, and \<open>await\<close> is \<^verbatim>\<open>await\<close> inside such a body.
\<close>

datatype 'a promise = Fulfilled 'a | Rejected error

datatype 'a executor = Resolve 'a | Reject error | Throw error

definition new_Promise :: "'a executor \<Rightarrow> error + 'a promise" where
  "new_Promise ex =
     (case ex of
        Resolve v \<Rightarrow> Inr (Fulfilled v)
      | Reject e \<Rightarrow> Inr (Rejected e)
      | Throw e \<Rightarrow> Inr (Rejected e))"

definition async :: "error + 'a \<Rightarrow> error + 'a promise" where
  "async body = (case body of Inl e \<Rightarrow> Inr (Rejected e) | Inr v \<Rightarrow> Inr (Fulfilled v))"

definition await :: "'a promise \<Rightarrow> error + 'a" where
  "await pr = (case pr of Fulfilled v \<Rightarrow> Inr v | Rejected e \<Rightarrow> Inl e)"

definition readFile :: "ArchiveReader \<Rightarrow> path_arg \<Rightarrow> error + byte list promise" where
  "readFile this p =
     new_Promise
       (case readFileSync this p of
          Inl err \<Rightarrow> Reject err
        | Inr res \<Rightarrow> Resolve res)"

definition readTextFile :: "ArchiveReader \<Rightarrow> path_arg \<Rightarrow> error + jsstring promise" where
  "readTextFile this p =
     async
       (case readFile this p of
          Inl err \<Rightarrow> Inl err
        | Inr pr \<Rightarrow> (case await pr of Inl err \<Rightarrow> Inl err | Inr raw \<Rightarrow> decodeBuffer raw))"

text \<open>
  The generator \<^verbatim>\<open>expandGlob\<close> of the reader, read to its end: the paths it yields.
\<close>

fun expandGlob_loop :: "(jsstring \<Rightarrow> bool) \<Rightarrow> IArchiveAssetReference list \<Rightarrow> jsstring list" where
  "expandGlob_loop re [] = []"
| "expandGlob_loop re (record # rest) =
     (if re (path record) then path record # expandGlob_loop re rest
      else expandGlob_loop re rest)"

definition expandGlob :: "platform \<Rightarrow> ArchiveReader \<Rightarrow> jsstring \<Rightarrow> jsstring list" where
  "expandGlob pf this glob = (let re = globToRegExp pf glob in expandGlob_loop re (assets this))"

subsection \<open>The methods as procedures on the object\<close>

text \<open>
  The functions above give what a method returns from the archive it finds. Here the
  same method bodies are written once more as procedures: each takes the object as it is
  before the call and returns its result together with the object as it is after the call,
  and the object is handed from statement to statement. A method reaches the array only
  through \<^verbatim>\<open>this.assets\<close>; the operations on it are its length, the element at an index
  (\<open>None\<close> for \<^verbatim>\<open>undefined\<close>, and for the end of an iteration), and, used by no method of
  the class, a write such as \<^verbatim>\<open>push\<close>. The strings handed to the library (\<^verbatim>\<open>toFileUrl\<close>,
  \<^verbatim>\<open>base64.decode\<close>, \<^verbatim>\<open>globToRegExp\<close>, \<^verbatim>\<open>TextDecoder\<close>) are values, not references into
  the object, so a library call returns a value and leaves the object alone.
\<close>

type_synonym 'a procedure = "ArchiveReader \<Rightarrow> 'a \<times> ArchiveReader"

definition assets_length :: "nat procedure" where
  "assets_length this = (length (assets this), this)"

definition assets_get :: "nat \<Rightarrow> IArchiveAssetReference option procedure" where
  "assets_get k this =
     ((if k < length (assets this) then Some (assets this ! k) else None), this)"

definition assets_push :: "IArchiveAssetReference \<Rightarrow> nat procedure" where
  "assets_push r this = (Suc (length (assets this)), this\<lparr>assets := assets this @ [r]\<rparr>)"

text \<open>
  \<^verbatim>\<open>Array.prototype.find\<close>: the length is read once, then for each index below it the
  element is read from the array as it is at that moment and handed to the predicate,
  itself a procedure; the first element on which the predicate returns true is the result.
\<close>

fun find_from ::
  "(IArchiveAssetReference option \<Rightarrow> (error + bool) procedure) \<Rightarrow> nat \<Rightarrow> nat
     \<Rightarrow> (error + IArchiveAssetReference option) procedure" where
  "find_from predicate k 0 this = (Inr None, this)"
| "find_from predicate k (Suc n) this =
     (case assets_get k this of
        (kValue, this1) \<Rightarrow>
          (case predicate kValue this1 of
             (Inl err, this2) \<Rightarrow> (Inl err, this2)
           | (Inr True, this2) \<Rightarrow> (Inr kValue, this2)
           | (Inr False, this2) \<Rightarrow> find_from predicate (Suc k) n this2))"

definition Array_find ::
  "(IArchiveAssetReference option \<Rightarrow> (error + bool) procedure)
     \<Rightarrow> (error + IArchiveAssetReference option) procedure" where
  "Array_find predicate this =
     (case assets_length this of (len, this1) \<Rightarrow> find_from predicate 0 len this1)"

text \<open>
  The two private methods. Their bodies do not mention \<^verbatim>\<open>this\<close>.
\<close>

definition method_decodeBuffer :: "byte list \<Rightarrow> (error + jsstring) procedure" where
  "method_decodeBuffer raw this = (TextDecoder_decode False raw, this)"

definition method_toPathString :: "path_arg \<Rightarrow> (error + jsstring) procedure" where
  "method_toPathString p this =
     (case p of
        PathURL u \<Rightarrow> (Inr (href u), this)
      | PathString s \<Rightarrow>
          (case toFileUrl s of
             Inl e \<Rightarrow> (Inl e, this)
           | Inr u \<Rightarrow> (Inr (href u), this)))"

text \<open>
  \<^verbatim>\<open>readFileSync\<close>. The predicate is the arrow function
  \<^verbatim>\<open>(e) => this.#toPathString(e.path) === comparePath\<close>; on \<^verbatim>\<open>undefined\<close> the access
  \<^verbatim>\<open>e.path\<close> throws.
\<close>

definition method_readFileSync :: "path_arg \<Rightarrow> (error + byte list) procedure" where
  "method_readFileSync p this =
     (case method_toPathString p this of
        (Inl err, this1) \<Rightarrow> (Inl err, this1)
      | (Inr comparePath, this1) \<Rightarrow>
          (case Array_find
                  (\<lambda>e this'. case e of
                       None \<Rightarrow> (Inl (TypeError (str ''Cannot read properties of undefined'')), this')
                     | Some e \<Rightarrow>
                         (case method_toPathString (PathString (path e)) this' of
                            (Inl err, this'') \<Rightarrow> (Inl err, this'')
                          | (Inr h, this'') \<Rightarrow> (Inr (h = comparePath), this'')))
                  this1 of
             (Inl err, this2) \<Rightarrow> (Inl err, this2)
           | (Inr None, this2) \<Rightarrow>
               (Inl (NotFound (str ''File not found: '' @ comparePath)), this2)
           | (Inr (Some file), this2) \<Rightarrow> (base64_decode (contents file), this2)))"

definition method_readFile :: "path_arg \<Rightarrow> (error + byte list promise) procedure" where
  "method_readFile p this =
     (case method_readFileSync p this of
        (Inl err, this1) \<Rightarrow> (new_Promise (Reject err), this1)
      | (Inr res, this1) \<Rightarrow> (new_Promise (Resolve res), this1))"

definition method_readTextFileSync :: "path_arg \<Rightarrow> (error + jsstring) procedure" where
  "method_readTextFileSync p this =
     (case method_readFileSync p this of
        (Inl err, this1) \<Rightarrow> (Inl err, this1)
      | (Inr raw, this1) \<Rightarrow> method_decodeBuffer raw this1)"

definition method_readTextFile :: "path_arg \<Rightarrow> (error + jsstring promise) procedure" where
  "method_readTextFile p this =
     (case method_readFile p this of
        (Inl err, this1) \<Rightarrow> (async (Inl err), this1)
      | (Inr pr, this1) \<Rightarrow>
          (case await pr of
             Inl err \<Rightarrow> (async (Inl err), this1)
           | Inr raw \<Rightarrow>
               (case method_decodeBuffer raw this1 of
                  (text, this2) \<Rightarrow> (async text, this2))))"

text \<open>
  \<^verbatim>\<open>for (const record of this.assets)\<close>: each step of the array's iterator compares its
  index with the length the array has at that moment and either ends the loop or reads
  the element. The generator is read to its end by a consumer that does not touch the
  reader.
\<close>

function expandGlob_from :: "(jsstring \<Rightarrow> bool) \<Rightarrow> nat \<Rightarrow> jsstring list procedure" where
  "expandGlob_from re i this =
     (case assets_get i this of
        (None, this1) \<Rightarrow> ([], this1)
      | (Some record, this1) \<Rightarrow>
          (let yielded = (if re (path record) then [path record] else [])
           in case expandGlob_from re (Suc i) this1 of
                (later, this2) \<Rightarrow> (yielded @ later, this2)))"
  by pat_completeness auto

termination expandGlob_from
  by (relation "measure (\<lambda>(re, i, this). length (assets this) - i)")
     (auto simp: assets_get_def split: if_splits)

declare expandGlob_from.simps [simp del]

definition method_expandGlob :: "platform \<Rightarrow> jsstring \<Rightarrow> jsstring list procedure" where
  "method_expandGlob pf glob this =
     (let re = globToRegExp pf glob in expandGlob_from re 0 this)"

text \<open>
  A use of the reader is a sequence of method calls on one object. \<open>invoke\<close> is one call:
  its result and the object the method leaves behind.
\<close>

datatype method_call =
    Call_readFileSync path_arg
  | Call_readFile path_arg
  | Call_readTextFileSync path_arg
  | Call_readTextFile path_arg
  | Call_expandGlob jsstring

datatype method_result =
    Bytes "error + byte list"
  | BytesPromise "error + byte list promise"
  | Text "error + jsstring"
  | TextPromise "error + jsstring promise"
  | Paths "jsstring list"

fun invoke :: "platform \<Rightarrow> ArchiveReader \<Rightarrow> method_call \<Rightarrow> method_result \<times> ArchiveReader" where
  "invoke pf this (Call_readFileSync p) =
     (case method_readFileSync p this of (r, this') \<Rightarrow> (Bytes r, this'))"
| "invoke pf this (Call_readFile p) =
     (case method_readFile p this of (r, this') \<Rightarrow> (BytesPromise r, this'))"
| "invoke pf this (Call_readTextFileSync p) =
     (case method_readTextFileSync p this of (r, this') \<Rightarrow> (Text r, this'))"
| "invoke pf this (Call_readTextFile p) =
     (case method_readTextFile p this of (r, this') \<Rightarrow> (TextPromise r, this'))"
| "invoke pf this (Call_expandGlob glob) =
     (case method_expandGlob pf glob this of (r, this') \<Rightarrow> (Paths r, this'))"

fun invoke_all ::
  "platform \<Rightarrow> ArchiveReader \<Rightarrow> method_call list \<Rightarrow> method_result list \<times> ArchiveReader" where
  "invoke_all pf this [] = ([], this)"
| "invoke_all pf this (c # cs) =
     (case invoke pf this c of
        (r, this') \<Rightarrow> (case invoke_all pf this' cs of (rs, this'') \<Rightarrow> (r # rs, this'')))"

section \<open>A worked example\<close>

text \<open>
  A small archive and a small environment on which the theorems below are run. The archive
  has the two assets of the test suite's layout, a second record under the path of the
  first, and a record whose bytes are not UTF-8. The environment has a directory
  \<^verbatim>\<open>/repo\<close> with two text files, a symbolic link and a file whose name holds a \<^verbatim>\<open>#\<close>;
  its pattern test knows the wildcard \<^verbatim>\<open>*\<close> inside one path segment.
\<close>

fun wildcard_match :: "jsstring \<Rightarrow> jsstring \<Rightarrow> bool" where
  "wildcard_match [] s = (s = [])"
| "wildcard_match (g # gs) [] = (g = 42 \<and> wildcard_match gs [])"
| "wildcard_match (g # gs) (c # s) =
     (if g = 42 then wildcard_match gs (c # s) \<or> (c \<noteq> 47 \<and> wildcard_match (g # gs) s)
      else c = g \<and> wildcard_match gs s)"

definition ascii_bytes :: "string \<Rightarrow> byte list" where
  "ascii_bytes s = map of_char s"

definition example_archive :: "IArchiveAssetReference list" where
  "example_archive =
     [\<lparr>path = str ''/test_assets/asset_1.txt'', contents = str ''aGVsbG8gd29ybGQK''\<rparr>,
      \<lparr>path = str ''/test_assets/asset_2.txt'',
       contents = str ''dGhlIHF1aWNrIGJyb3duIGZveCBqdW1wcyBvdmVyIGRvZ3MK''\<rparr>,
      \<lparr>path = str ''/test_assets/asset_1.txt'', contents = str ''c2Vjb25kIGNvcHk=''\<rparr>,
      \<lparr>path = str ''/bad.bin'', contents = str ''/w==''\<rparr>]"

definition example_reader :: ArchiveReader where
  "example_reader = \<lparr>assets = example_archive\<rparr>"

text \<open>
  An archive of two records whose paths differ as strings and have the same file URL: the
  URL parser reads a first segment \<^verbatim>\<open>C|\<close> of a file URL as the drive letter \<^verbatim>\<open>C:\<close>.
\<close>

definition drive_archive :: "IArchiveAssetReference list" where
  "drive_archive =
     [\<lparr>path = str ''/C:/x'', contents = str ''YQ==''\<rparr>,
      \<lparr>path = str ''/C|/x'', contents = str ''Yg==''\<rparr>]"

definition example_platform :: platform where
  "example_platform =
     \<lparr>fs_expandGlob = (\<lambda>glob root.
        if glob = str ''./test_assets/*.txt'' then
          ([\<lparr>file_path = str ''/repo/test_assets/asset_1.txt'', isFile = True, isSymlink = False\<rparr>,
            \<lparr>file_path = str ''/repo/test_assets/asset_2.txt'', isFile = True, isSymlink = False\<rparr>,
            \<lparr>file_path = str ''/repo/test_assets/link.txt'', isFile = False, isSymlink = True\<rparr>],
           None)
        else if glob = str ''**/*_1.txt'' then
          ([\<lparr>file_path = str ''/repo/test_assets/asset_1.txt'', isFile = True, isSymlink = False\<rparr>],
           None)
        else if glob = str ''*#*'' then
          ([\<lparr>file_path = str ''/repo/a#b.txt'', isFile = True, isSymlink = False\<rparr>], None)
        else ([], None)),
      Deno_readFile = (\<lambda>p.
        if p = str ''/repo/test_assets/asset_1.txt'' then Inr (ascii_bytes ''hello world'' @ [10])
        else if p = str ''/repo/test_assets/asset_2.txt'' then Inr (ascii_bytes ''the quick brown fox jumps over dogs'' @ [10])
        else if p = str ''/repo/a#b.txt'' then Inr (ascii_bytes ''x'')
        else Inl (NotFound p)),
      relative = (\<lambda>from to. drop (length from + 1) to),
      globToRegExp = wildcard_match\<rparr>"
text \<open>
  A directory in which the run of the generator ends early. The pattern \<^verbatim>\<open>locked/*\<close>
  matches a file that cannot be read and, after it, one that can; the pattern \<^verbatim>\<open>*.txt\<close>
  matches two files that can be read, the first with a \<^verbatim>\<open>%\<close> in its name.
\<close>

definition failing_platform :: platform where
  "failing_platform =
     \<lparr>fs_expandGlob = (\<lambda>glob root.
        if glob = str ''locked/*'' then
          ([\<lparr>file_path = str ''/repo/locked/a.bin'', isFile = True, isSymlink = False\<rparr>,
            \<lparr>file_path = str ''/repo/locked/b.txt'', isFile = True, isSymlink = False\<rparr>],
           None)
        else if glob = str ''*.txt'' then
          ([\<lparr>file_path = str ''/repo/x%ff.txt'', isFile = True, isSymlink = False\<rparr>,
            \<lparr>file_path = str ''/repo/z.txt'', isFile = True, isSymlink = False\<rparr>],
           None)
        else ([], None)),
      Deno_readFile = (\<lambda>p.
        if p = str ''/repo/locked/a.bin'' then Inl (IOError (str ''PermissionDenied''))
        else if p = str ''/repo/locked/b.txt'' then Inr (ascii_bytes ''b'')
        else if p = str ''/repo/x%ff.txt'' then Inr (ascii_bytes ''x'')
        else if p = str ''/repo/z.txt'' then Inr (ascii_bytes ''z'')
        else Inl (NotFound p)),
      relative = (\<lambda>from to. drop (length from + 1) to),
      globToRegExp = wildcard_match\<rparr>"

section \<open>Base64: decoding what was encoded\<close>
























section \<open>Plain paths pass through the URL conversions unchanged\<close>

lemma plain_char_facts:
  assumes "plain_char c"
  shows "c \<noteq> 37" "c \<noteq> 92" "c \<noteq> 124" "\<not> tab_or_newline c" "\<not> path_percent_encode_set c"
    "\<not> surrogate c" "c < 0xD800" "0x20 < c"
  using assms
  by (simp_all add: plain_char_def tab_or_newline_def path_percent_encode_set_def surrogate_def)

lemma plain_absent:
  "list_all plain_char s \<Longrightarrow> 37 \<notin> set s \<and> 92 \<notin> set s \<and> 124 \<notin> set s"
  using plain_char_facts(1-3) by (auto simp: list_all_iff)

lemma code_points_plain: "list_all plain_char s \<Longrightarrow> code_points s = s"
proof (induction s rule: code_points.induct)
  case (3 c d cs)
  then show ?case using plain_char_facts(6,7)[of c] by simp
qed (simp_all add: plain_char_facts)

lemma replaceAll_absent: "c \<notin> set s \<Longrightarrow> replaceAll c new s = s"
  by (induction s) (auto simp: replaceAll_def)

lemma encodeWhitespace_plain: "list_all plain_char s \<Longrightarrow> encodeWhitespace s = s"
proof (induction s)
  case Nil
  then show ?case by (simp add: encodeWhitespace_def)
next
  case (Cons c s)
  then have "0x20 < c" "encodeWhitespace s = s" by (simp_all add: plain_char_facts)
  then show ?case by (simp add: encodeWhitespace_def)
qed

lemma percent_encode_plain: "list_all plain_char s \<Longrightarrow> concat (map utf8_percent_encode s) = s"
  by (induction s) (simp_all add: utf8_percent_encode_def plain_char_facts)

lemma filter_tab_plain: "list_all plain_char s \<Longrightarrow> filter (\<lambda>c. \<not> tab_or_newline c) s = s"
  by (induction s) (simp_all add: plain_char_facts)

lemma serialize_split:
  "92 \<notin> set s \<Longrightarrow> serialize_path (split_segments s) = 47 # s"
proof (induction s)
  case Nil
  then show ?case by (simp add: serialize_path_def)
next
  case (Cons c cs)
  then show ?case
    by (cases "split_segments cs") (auto simp: serialize_path_def)
qed

lemma split_segments_plain:
  "list_all plain_char s \<Longrightarrow> seg \<in> set (split_segments s) \<Longrightarrow> list_all plain_char seg"
proof (induction s arbitrary: seg)
  case Nil
  then show ?case by simp
next
  case (Cons c cs)
  then show ?case
    by (cases "split_segments cs") (auto split: if_splits)
qed

lemma dot_segments:
  assumes "37 \<notin> set b"
  shows "single_dot_segment b = (b = str ''.'')" "double_dot_segment b = (b = str ''..'')"
  using assms by (auto simp: single_dot_segment_def double_dot_segment_def str_def)

lemma drive_letter_plain:
  "124 \<notin> set b \<Longrightarrow> windows_drive_letter b \<Longrightarrow> [hd b, 58] = b"
  by (auto simp: windows_drive_letter_def split: list.splits)

lemma path_state_plain:
  assumes "\<forall>seg \<in> set segs. list_all plain_char seg \<and> seg \<noteq> str ''.'' \<and> seg \<noteq> str ''..''"
  shows "path_state p segs = p @ segs"
  using assms
proof (induction segs arbitrary: p)
  case Nil
  then show ?case by simp
next
  case (Cons seg segs)
  then have s: "list_all plain_char seg" "seg \<noteq> str ''.''" "seg \<noteq> str ''..''" by auto
  from Cons have rest: "path_state (p @ [seg]) segs = (p @ [seg]) @ segs" by auto
  from s(1) have buf: "concat (map utf8_percent_encode seg) = seg"
    by (rule percent_encode_plain)
  from s(1) have abs: "37 \<notin> set seg" "124 \<notin> set seg" using plain_absent[of seg] by auto
  have dots: "\<not> single_dot_segment seg" "\<not> double_dot_segment seg"
    using s(2,3) dot_segments[OF abs(1)] by auto
  have drive: "(if p = [] \<and> windows_drive_letter seg then [hd seg, 58] else seg) = seg"
    using drive_letter_plain[OF abs(2)] by auto
  show ?case
    unfolding path_state.simps buf Let_def using dots drive rest by simp
qed

lemma toFileUrl_plain:
  assumes "plain_path p"
  shows "toFileUrl p = Inr \<lparr>href = str ''file://'' @ p\<rparr>"
proof -
  from assms have a: "isAbsolute p" and pl: "list_all plain_char p"
    and segs: "list_all (\<lambda>seg. seg \<noteq> str ''.'' \<and> seg \<noteq> str ''..'') (split_segments (tl p))"
    by (auto simp: plain_path_def)
  from a obtain r where p: "p = 47 # r" by (cases p) (auto simp: isAbsolute_def)
  from pl p have r: "list_all plain_char r" by simp
  from plain_absent[OF pl] have no: "37 \<notin> set p" "92 \<notin> set p" by auto
  have esc: "encodeWhitespace (replaceAll 92 (str ''%5C'') (replaceAll 37 (str ''%25'') p)) = p"
    unfolding replaceAll_absent[OF no(1)] replaceAll_absent[OF no(2)]
    by (rule encodeWhitespace_plain[OF pl])
  from plain_absent[OF r] have no92: "92 \<notin> set r" by auto
  have "\<forall>seg \<in> set (split_segments r).
      list_all plain_char seg \<and> seg \<noteq> str ''.'' \<and> seg \<noteq> str ''..''"
    using segs split_segments_plain[OF r] unfolding p by (auto simp: list_all_iff)
  then have "path_state [] (split_segments r) = [] @ split_segments r"
    by (rule path_state_plain)
  then have "URL_set_pathname p = p"
    unfolding URL_set_pathname_def code_points_plain[OF pl] filter_tab_plain[OF pl] Let_def
    by (simp add: p serialize_split[OF no92])
  with a show ?thesis by (simp add: toFileUrl_def esc)
qed

lemma plain_paths_separate:
  "plain_path p \<Longrightarrow> plain_path q \<Longrightarrow>
     toPathString (PathString p) = toPathString (PathString q) \<Longrightarrow> p = q"
  by (simp add: toPathString_def toFileUrl_plain)

lemma escape_stray_percent_absent: "37 \<notin> set s \<Longrightarrow> escape_stray_percent s = s"
  by (induction s) simp_all

lemma decodeURI_loop_absent: "37 \<notin> set s \<Longrightarrow> decodeURI_loop [] 0 s = Inr s"
  by (induction s) (simp_all add: emit_def)

lemma trim_plain:
  "list_all plain_char s \<Longrightarrow> rev (dropWhile (\<lambda>c. c \<le> 0x20) (rev s)) = s"
proof (cases s rule: rev_cases)
  case Nil
  then show ?thesis by simp
next
  case (snoc ys y)
  assume "list_all plain_char s"
  with snoc have "0x20 < y" by (simp add: plain_char_facts)
  with snoc show ?thesis by simp
qed

lemma takeWhile_path_plain:
  "list_all plain_char s \<Longrightarrow> takeWhile (\<lambda>c. c \<noteq> 63 \<and> c \<noteq> 35) s = s"
  by (induction s) (simp_all add: plain_char_def)

lemma fromFileUrl_rooted_plain:
  assumes pl: "list_all plain_char rel"
    and segs: "list_all (\<lambda>seg. seg \<noteq> str ''.'' \<and> seg \<noteq> str ''..'') (split_segments rel)"
  shows "fromFileUrl_rooted rel = Inr (str ''/'' @ rel)"
proof -
  from plain_absent[OF pl] have no: "37 \<notin> set rel" "92 \<notin> set rel" by auto
  have "\<forall>seg \<in> set (split_segments rel).
      list_all plain_char seg \<and> seg \<noteq> str ''.'' \<and> seg \<noteq> str ''..''"
    using segs split_segments_plain[OF pl] by (auto simp: list_all_iff)
  then have "path_state [] (split_segments rel) = [] @ split_segments rel"
    by (rule path_state_plain)
  then have "URL_file_pathname rel = 47 # rel"
    unfolding URL_file_pathname_def code_points_plain[OF pl] trim_plain[OF pl]
      filter_tab_plain[OF pl] takeWhile_path_plain[OF pl] Let_def
    by (simp add: serialize_split[OF no(2)])
  then have "fromFileUrl_rooted rel = decodeURI_loop [] 0 (escape_stray_percent (47 # rel))"
    by (simp add: fromFileUrl_rooted_def decodeURIComponent_def)
  also have "escape_stray_percent (47 # rel) = 47 # rel"
    using no(1) by (intro escape_stray_percent_absent) simp
  also have "decodeURI_loop [] 0 (47 # rel) = Inr (47 # rel)"
    using no(1) by (intro decodeURI_loop_absent) simp
  finally show ?thesis by (simp add: str_def)
qed

section \<open>Looking a path up\<close>

lemma isAbsolute_iff: "isAbsolute s = (\<exists>rest. s = str ''/'' @ rest)"
  by (cases s) (auto simp: isAbsolute_def str_def)

lemma toPathString_absolute:
  "isAbsolute s \<Longrightarrow> \<exists>h. toPathString (PathString s) = Inr h"
  by (simp add: toPathString_def toFileUrl_def)

lemma find_asset_absolute:
  assumes "\<forall>e \<in> set es. isAbsolute (path e)"
  shows "find_asset h es = Inr (List.find (\<lambda>e. toPathString (PathString (path e)) = Inr h) es)"
  using assms
proof (induction es)
  case Nil
  then show ?case by simp
next
  case (Cons e es)
  then obtain h' where "toPathString (PathString (path e)) = Inr h'"
    using toPathString_absolute[of "path e"] by auto
  with Cons show ?case by simp
qed

lemma find_first_index:
  assumes "x \<in> set xs" "P x"
  shows "\<exists>i<length xs. List.find P xs = Some (xs ! i) \<and> P (xs ! i) \<and> (\<forall>j<i. \<not> P (xs ! j))"
proof -
  from assms have "List.find P xs \<noteq> None" by (auto simp: find_None_iff)
  then obtain y where "List.find P xs = Some y" by auto
  then show ?thesis unfolding find_Some_iff by blast
qed

text \<open>
  Claim C1, as stated, fails. The reader compares the path it is given with the paths of
  the records by their file URLs, and two paths that differ as strings can have one URL:
  in a file URL the parser reads a first segment \<^verbatim>\<open>C|\<close> as the drive letter \<^verbatim>\<open>C:\<close>. In the
  archive of the two records \<^verbatim>\<open>/C:/x\<close> and \<^verbatim>\<open>/C|/x\<close>, both of them absolute paths as the
  data model asks, the lookup of the path of the second record returns the bytes of the
  first record, which are not the decoding of the contents of the second.
\<close>

theorem C1_lookup_counterexample:
  "isAbsolute (path (drive_archive ! 0)) \<and> isAbsolute (path (drive_archive ! 1))
   \<and> path (drive_archive ! 0) \<noteq> path (drive_archive ! 1)
   \<and> base64_decode (contents (drive_archive ! 1)) = Inr (ascii_bytes ''b'')
   \<and> readFileSync \<lparr>assets = drive_archive\<rparr> (PathString (path (drive_archive ! 1)))
       = Inr (ascii_bytes ''a'')"
  by code_simp

text \<open>
  Claim C1, amended. Take an archive whose record paths are absolute, as the data model
  has them. For every record \<open>r\<close> of the archive \<open>readFileSync (path r)\<close> is the base64
  decoding of the contents of the earliest record whose path has the file URL of the
  path of \<open>r\<close>: of \<open>r\<close> itself when no earlier record has a path with that URL, and never
  of a later record. Records with one path have one URL, so the record returned is
  no later in the archive than any record with the path of \<open>r\<close>: of several records with
  the same path none but the earliest is reached.
\<close>

theorem C1_lookup_returns_earliest_of_same_url:
  assumes absolute: "\<forall>e \<in> set (assets this). isAbsolute (path e)"
    and member: "r \<in> set (assets this)"
  shows "\<exists>i<length (assets this).
           toPathString (PathString (path (assets this ! i)))
             = toPathString (PathString (path r))
         \<and> (\<forall>j<i. toPathString (PathString (path (assets this ! j)))
                    \<noteq> toPathString (PathString (path r)))
         \<and> (\<forall>j<length (assets this). path (assets this ! j) = path r \<longrightarrow> i \<le> j)
         \<and> readFileSync this (PathString (path r))
             = base64_decode (contents (assets this ! i))"
proof -
  from absolute member obtain h where h: "toPathString (PathString (path r)) = Inr h"
    using toPathString_absolute[of "path r"] by auto
  from find_first_index[of r "assets this" "\<lambda>e. toPathString (PathString (path e)) = Inr h"]
    member h
  obtain i where i: "i < length (assets this)"
      "List.find (\<lambda>e. toPathString (PathString (path e)) = Inr h) (assets this)
         = Some (assets this ! i)"
      "toPathString (PathString (path (assets this ! i))) = Inr h"
      "\<forall>j<i. toPathString (PathString (path (assets this ! j))) \<noteq> Inr h"
    by auto
  have "readFileSync this (PathString (path r)) = base64_decode (contents (assets this ! i))"
    by (simp add: readFileSync_def h find_asset_absolute[OF absolute] i(2))
  moreover have "\<forall>j<length (assets this). path (assets this ! j) = path r \<longrightarrow> i \<le> j"
  proof (intro allI impI)
    fix j
    assume "j < length (assets this)" and "path (assets this ! j) = path r"
    then have "toPathString (PathString (path (assets this ! j))) = Inr h"
      using h by simp
    with i(4) show "i \<le> j" by (meson not_le_imp_less)
  qed
  ultimately show ?thesis using i h by auto
qed

text \<open>
  In the example the third record repeats the path of the first: the lookup of that path
  returns the bytes of the first record, and the bytes of the third are out of reach. In
  the archive of the two drive paths the lookup of \<^verbatim>\<open>/C|/x\<close> returns the decoding of the
  first record.
\<close>

theorem C1_lookup_example:
  "readFileSync example_reader (PathString (str ''/test_assets/asset_1.txt''))
     = Inr (ascii_bytes ''hello world'' @ [10])
   \<and> path (example_archive ! 2) = str ''/test_assets/asset_1.txt''
   \<and> base64_decode (contents (example_archive ! 2)) = Inr (ascii_bytes ''second copy'')
   \<and> readFileSync \<lparr>assets = drive_archive\<rparr> (PathString (str ''/C|/x''))
       = base64_decode (contents (drive_archive ! 0))"
proof -
  let ?r = "example_archive ! 2"
  have a: "\<forall>e \<in> set (assets example_reader). isAbsolute (path e)"
    by code_simp
  have m: "?r \<in> set (assets example_reader)"
    by code_simp
  have p: "path ?r = str ''/test_assets/asset_1.txt''"
    by code_simp
  have z: "toPathString (PathString (path (assets example_reader ! 0)))
      = toPathString (PathString (path ?r))"
    by code_simp
  from C1_lookup_returns_earliest_of_same_url[OF a m]
  obtain i where i: "\<forall>j<i. toPathString (PathString (path (assets example_reader ! j)))
        \<noteq> toPathString (PathString (path ?r))"
    "readFileSync example_reader (PathString (path ?r))
       = base64_decode (contents (assets example_reader ! i))"
    by blast
  from i(1) z have "i = 0" by (cases i) auto
  moreover have "base64_decode (contents (assets example_reader ! 0))
      = Inr (ascii_bytes ''hello world'' @ [10])"
    by code_simp
  moreover have "base64_decode (contents ?r) = Inr (ascii_bytes ''second copy'')"
    by code_simp
  ultimately have first: "readFileSync example_reader (PathString (str ''/test_assets/asset_1.txt''))
     = Inr (ascii_bytes ''hello world'' @ [10])
   \<and> path (example_archive ! 2) = str ''/test_assets/asset_1.txt''
   \<and> base64_decode (contents (example_archive ! 2)) = Inr (ascii_bytes ''second copy'')"
    using i(2) p by simp
  let ?d = "\<lparr>assets = drive_archive\<rparr>"
  let ?s = "drive_archive ! 1"
  have da: "\<forall>e \<in> set (assets ?d). isAbsolute (path e)"
    by code_simp
  have dm: "?s \<in> set (assets ?d)"
    by code_simp
  have dp: "path ?s = str ''/C|/x''"
    by code_simp
  have dz: "toPathString (PathString (path (assets ?d ! 0)))
      = toPathString (PathString (path ?s))"
    by code_simp
  from C1_lookup_returns_earliest_of_same_url[OF da dm]
  obtain k where k: "\<forall>j<k. toPathString (PathString (path (assets ?d ! j)))
        \<noteq> toPathString (PathString (path ?s))"
    "readFileSync ?d (PathString (path ?s)) = base64_decode (contents (assets ?d ! k))"
    by blast
  from k(1) dz have "k = 0" by (cases k) auto
  with k(2) dp have "readFileSync ?d (PathString (str ''/C|/x''))
       = base64_decode (contents (drive_archive ! 0))"
    by simp
  with first show ?thesis by simp
qed

text \<open>
  Claim C5, as stated, fails. A string that is not absolute has no matching record and
  yet is answered with a \<open>TypeError\<close>, not with \<open>NotFound\<close>. And what \<open>NotFound\<close> carries
  is the file URL of the path, which need not contain the path as it was requested: for
  \<^verbatim>\<open>/no such file\<close> the message ends in \<^verbatim>\<open>file:///no%20such%20file\<close>.
\<close>

theorem C5_not_found_counterexample:
  "str ''test_assets/asset_1.txt'' \<notin> set (map path (assets example_reader))
   \<and> readFileSync example_reader (PathString (str ''test_assets/asset_1.txt''))
       = Inl (TypeError (str ''Must be an absolute path.''))
   \<and> str ''/no such file'' \<notin> set (map path (assets example_reader))
   \<and> readFileSync example_reader (PathString (str ''/no such file''))
       = Inl (NotFound (str ''File not found: file:///no%20such%20file''))"
  by code_simp

text \<open>
  Claim C5, amended. Let the archive be as the data model has it, with every record path
  absolute, and let the path argument be one that \<open>toPathString\<close> accepts, with result
  \<open>h\<close>: an absolute string, turned into its file URL, or a \<open>URL\<close>, taken by its \<open>href\<close>.
  If no record path converts to \<open>h\<close>, \<open>readFileSync\<close> throws \<open>NotFound\<close> with the message
  \<^verbatim>\<open>File not found: \<close> followed by \<open>h\<close>: the URL string, not the path as it was passed.
\<close>

theorem C5_not_found_carries_url:
  assumes accepted: "toPathString p = Inr h"
    and absolute: "\<forall>e \<in> set (assets this). isAbsolute (path e)"
    and absent: "\<forall>e \<in> set (assets this). toPathString (PathString (path e)) \<noteq> Inr h"
  shows "readFileSync this p = Inl (NotFound (str ''File not found: '' @ h))"
proof -
  have "List.find (\<lambda>e. toPathString (PathString (path e)) = Inr h) (assets this) = None"
    using absent by (simp add: find_None_iff)
  then show ?thesis
    by (simp add: readFileSync_def accepted find_asset_absolute[OF absolute])
qed

theorem C5_not_found_example:
  "readFileSync example_reader (PathString (str ''/does/not/exist''))
     = Inl (NotFound (str ''File not found: file:///does/not/exist''))"
proof -
  have a: "toPathString (PathString (str ''/does/not/exist''))
      = Inr (str ''file:///does/not/exist'')"
    by code_simp
  have b: "\<forall>e \<in> set (assets example_reader). isAbsolute (path e)"
    by code_simp
  have c: "\<forall>e \<in> set (assets example_reader).
      toPathString (PathString (path e)) \<noteq> Inr (str ''file:///does/not/exist'')"
    by code_simp
  have d: "str ''File not found: '' @ str ''file:///does/not/exist''
      = str ''File not found: file:///does/not/exist''"
    by code_simp
  from C5_not_found_carries_url[OF a b c] show ?thesis unfolding d .
qed

text \<open>
  Claim C10. For a string argument that is not an absolute POSIX path, \<open>readFileSync\<close>
  throws the \<open>TypeError\<close> of \<open>toFileUrl\<close>, which is not \<open>NotFound\<close>, whatever the archive
  holds: the conversion fails before a record is looked at. A \<open>URL\<close> argument is accepted
  as it is, and the records are compared with its \<open>href\<close>.
\<close>

theorem C10_relative_string_rejected_url_accepted:
  "(\<not> isAbsolute s \<longrightarrow>
      readFileSync this (PathString s) = Inl (TypeError (str ''Must be an absolute path.'')))
   \<and> toPathString (PathURL u) = Inr (href u)
   \<and> readFileSync this (PathURL u) =
       (case find_asset (href u) (assets this) of
          Inl err \<Rightarrow> Inl err
        | Inr None \<Rightarrow> Inl (NotFound (str ''File not found: '' @ href u))
        | Inr (Some file) \<Rightarrow> base64_decode (contents file))"
  by (simp add: readFileSync_def toPathString_def toFileUrl_def)

theorem C10_relative_string_example:
  "\<not> isAbsolute (str ''test_assets/asset_1.txt'')
   \<and> readFileSync example_reader (PathString (str ''test_assets/asset_1.txt''))
       = Inl (TypeError (str ''Must be an absolute path.''))
   \<and> readFileSync example_reader (PathURL \<lparr>href = str ''file:///test_assets/asset_2.txt''\<rparr>)
       = Inr (ascii_bytes ''the quick brown fox jumps over dogs'' @ [10])"
proof -
  have a: "\<not> isAbsolute (str ''test_assets/asset_1.txt'')"
    by code_simp
  have b: "(case find_asset (href \<lparr>href = str ''file:///test_assets/asset_2.txt''\<rparr>)
                  (assets example_reader) of
          Inl err \<Rightarrow> Inl err
        | Inr None \<Rightarrow> Inl (NotFound (str ''File not found: ''
              @ href \<lparr>href = str ''file:///test_assets/asset_2.txt''\<rparr>))
        | Inr (Some file) \<Rightarrow> base64_decode (contents file))
      = Inr (ascii_bytes ''the quick brown fox jumps over dogs'' @ [10])"
    by code_simp
  from C10_relative_string_rejected_url_accepted
         [of "str ''test_assets/asset_1.txt''" example_reader
             "\<lparr>href = str ''file:///test_assets/asset_2.txt''\<rparr>"] a b
  show ?thesis by simp
qed

section \<open>Reading text\<close>

lemma isl_emit: "isl (emit x r) = isl r"
  by (cases r) (simp_all add: emit_def)

lemma isl_decode_error: "isl (decode_error False r) = isl r"
  by (simp add: decode_error_def isl_emit)

lemma utf8_decoder_returns: "\<not> isl (utf8_decoder False st bs)"
proof (induction "False" st bs rule: utf8_decoder.induct)
  case (1 cp seen needed lower upper)
  then show ?case by (simp add: isl_decode_error)
next
  case (2 cp seen needed lower upper b bs)
  then show ?case
    by (simp add: isl_decode_error isl_emit)
qed

lemma decodeBuffer_total: "\<exists>text. decodeBuffer raw = Inr text"
proof -
  obtain cps where "utf8_decoder False (0, 0, 0, 0x80, 0xBF) raw = Inr cps"
    using utf8_decoder_returns[of "(0, 0, 0, 0x80, 0xBF)" raw]
    by (cases "utf8_decoder False (0, 0, 0, 0x80, 0xBF) raw") auto
  then show ?thesis by (simp add: decodeBuffer_def TextDecoder_decode_def)
qed

text \<open>Where the fatal decoder returns, the decoder that is not fatal returns the same.\<close>

lemma emit_Inr_iff: "(emit x r = Inr ys) = (\<exists>xs. r = Inr xs \<and> ys = x # xs)"
  by (cases r) (auto simp: emit_def)

lemma decode_error_fatal:
  "decode_error True r = Inl (TypeError (str ''The encoded data is not valid.''))"
  by (simp add: decode_error_def)

lemma utf8_decoder_fatal_agrees:
  "utf8_decoder True st bs = Inr cps \<Longrightarrow> utf8_decoder False st bs = Inr cps"
proof (induction bs arbitrary: st cps)
  case Nil
  obtain cp seen needed lower upper where st: "st = (cp, seen, needed, lower, upper)"
    by (cases st) auto
  from Nil show ?case unfolding st by (simp add: decode_error_fatal split: if_splits)
next
  case (Cons b bs)
  obtain cp seen needed lower upper where st: "st = (cp, seen, needed, lower, upper)"
    by (cases st) auto
  show ?case
  proof (cases "needed = 0")
    case True
    with Cons.prems Cons.IH show ?thesis unfolding st
      by (auto simp: decode_error_fatal emit_Inr_iff split: if_splits)
  next
    case False
    with Cons.prems Cons.IH show ?thesis unfolding st
      by (auto simp: decode_error_fatal emit_Inr_iff split: if_splits)
  qed
qed

lemma TextDecoder_fatal_agrees:
  "TextDecoder_decode True raw = Inr text \<Longrightarrow> TextDecoder_decode False raw = Inr text"
  by (auto simp: TextDecoder_decode_def split: sum.splits dest: utf8_decoder_fatal_agrees)

text \<open>
  Claim C7, as stated, fails. The fourth record of the example decodes to the single byte
  \<^verbatim>\<open>0xFF\<close>, which a fatal decoder rejects; \<open>readTextFileSync\<close> returns the one-character
  string U+FFFD for it and throws nothing.
\<close>

theorem C7_invalid_utf8_counterexample:
  "path (example_archive ! 3) = str ''/bad.bin''
   \<and> base64_decode (contents (example_archive ! 3)) = Inr [0xFF]
   \<and> TextDecoder_decode True [0xFF] = Inl (TypeError (str ''The encoded data is not valid.''))
   \<and> readTextFileSync example_reader (PathString (str ''/bad.bin'')) = Inr [0xFFFD]"
  by code_simp

text \<open>
  Claim C7, amended. \<open>readTextFileSync\<close> decodes with a decoder that is not fatal:
  whatever bytes \<open>readFileSync\<close> returns, valid UTF-8 or not, it returns the text that
  decoder produces, with U+FFFD in the place of every malformed sequence; on valid UTF-8
  this is the text a fatal decoder returns. It throws only the error \<open>readFileSync\<close>
  throws.
\<close>

theorem C7_text_read_substitutes:
  "(readFileSync this p = Inr raw \<longrightarrow>
      (\<exists>text. TextDecoder_decode False raw = Inr text \<and> readTextFileSync this p = Inr text))
   \<and> (readFileSync this p = Inr raw \<longrightarrow> TextDecoder_decode True raw = Inr strict \<longrightarrow>
        readTextFileSync this p = Inr strict)
   \<and> (readFileSync this p = Inl e \<longrightarrow> readTextFileSync this p = Inl e)"
  using decodeBuffer_total[of raw] TextDecoder_fatal_agrees[of raw strict]
  by (auto simp: readTextFileSync_def decodeBuffer_def)

theorem C7_text_read_example:
  "readTextFileSync example_reader (PathString (str ''/bad.bin'')) = Inr [0xFFFD]
   \<and> readTextFileSync example_reader (PathString (str ''/gone''))
       = Inl (NotFound (str ''File not found: file:///gone''))"
proof -
  have a: "readFileSync example_reader (PathString (str ''/bad.bin'')) = Inr [0xFF]"
    by code_simp
  have b: "TextDecoder_decode False [0xFF] = Inr [0xFFFD]"
    by code_simp
  have c: "readFileSync example_reader (PathString (str ''/gone''))
      = Inl (NotFound (str ''File not found: file:///gone''))"
    by code_simp
  from C7_text_read_substitutes[of example_reader "PathString (str ''/bad.bin'')" "[0xFF]"] a b
  have "readTextFileSync example_reader (PathString (str ''/bad.bin'')) = Inr [0xFFFD]"
    by auto
  moreover
  from C7_text_read_substitutes[of example_reader "PathString (str ''/gone'')" _ _
         "NotFound (str ''File not found: file:///gone'')"] c
  have "readTextFileSync example_reader (PathString (str ''/gone''))
      = Inl (NotFound (str ''File not found: file:///gone''))"
    by auto
  ultimately show ?thesis by simp
qed

section \<open>The methods read the object and hand it on\<close>

text \<open>
  Each method, run as a procedure on the object, returns what the function of the same
  name gives for the archive and leaves the object as it found it. For \<^verbatim>\<open>find\<close> and for
  the loop of \<^verbatim>\<open>expandGlob\<close> this is shown by induction on the number of elements still to
  visit.
\<close>

lemma method_decodeBuffer_reads: "method_decodeBuffer raw this = (decodeBuffer raw, this)"
  by (simp add: method_decodeBuffer_def decodeBuffer_def)

lemma method_toPathString_reads: "method_toPathString p this = (toPathString p, this)"
  by (simp add: method_toPathString_def toPathString_def split: path_arg.splits sum.splits)

lemma find_from_reads:
  "k + n = length (assets this) \<Longrightarrow>
   find_from
     (\<lambda>e this'. case e of
          None \<Rightarrow> (Inl (TypeError (str ''Cannot read properties of undefined'')), this')
        | Some e \<Rightarrow>
            (case method_toPathString (PathString (path e)) this' of
               (Inl err, this'') \<Rightarrow> (Inl err, this'')
             | (Inr h, this'') \<Rightarrow> (Inr (h = comparePath), this'')))
     k n this
   = (find_asset comparePath (drop k (assets this)), this)"
proof (induction n arbitrary: k)
  case 0
  then show ?case by simp
next
  case (Suc n)
  then have k: "k < length (assets this)" by simp
  then have d: "drop k (assets this) = assets this ! k # drop (Suc k) (assets this)"
    by (simp add: Cons_nth_drop_Suc)
  from Suc have IH: "Suc k + n = length (assets this)" by simp
  show ?case
    using k
    by (simp add: assets_get_def d Suc.IH[OF IH] method_toPathString_reads split: sum.splits)
qed

lemma method_readFileSync_reads:
  "method_readFileSync p this = (readFileSync this p, this)"
  by (simp add: method_readFileSync_def readFileSync_def method_toPathString_reads
      Array_find_def assets_length_def find_from_reads split: sum.splits option.splits)

lemma method_readFile_reads: "method_readFile p this = (readFile this p, this)"
  by (simp add: method_readFile_def readFile_def method_readFileSync_reads split: sum.splits)

lemma method_readTextFileSync_reads:
  "method_readTextFileSync p this = (readTextFileSync this p, this)"
  by (simp add: method_readTextFileSync_def readTextFileSync_def method_readFileSync_reads
      method_decodeBuffer_reads split: sum.splits)

lemma method_readTextFile_reads: "method_readTextFile p this = (readTextFile this p, this)"
  by (simp add: method_readTextFile_def readTextFile_def method_readFile_reads
      method_decodeBuffer_reads split: sum.splits)

lemma expandGlob_from_reads:
  "expandGlob_from re i this = (expandGlob_loop re (drop i (assets this)), this)"
proof (induction "length (assets this) - i" arbitrary: i)
  case 0
  then show ?case by (subst expandGlob_from.simps) (simp add: assets_get_def)
next
  case (Suc n)
  then have i: "i < length (assets this)" by simp
  then have d: "drop i (assets this) = assets this ! i # drop (Suc i) (assets this)"
    by (simp add: Cons_nth_drop_Suc)
  from Suc have "n = length (assets this) - Suc i" by simp
  from Suc.hyps(1)[OF this] i show ?case
    by (subst expandGlob_from.simps) (simp add: assets_get_def d)
qed

lemma method_expandGlob_reads:
  "method_expandGlob pf glob this = (expandGlob pf this glob, this)"
  by (simp add: method_expandGlob_def expandGlob_def expandGlob_from_reads)

lemma invoke_this: "snd (invoke pf this c) = this"
  by (cases c)
     (simp_all add: method_readFileSync_reads method_readFile_reads
        method_readTextFileSync_reads method_readTextFile_reads method_expandGlob_reads)

lemma invoke_all_this: "snd (invoke_all pf this cs) = this"
  by (induction cs) (auto split: prod.splits simp: invoke_this dest: arg_cong[where f=snd])

section \<open>Listing by pattern\<close>

lemma expandGlob_loop_filter:
  "expandGlob_loop re rs = map path (filter (\<lambda>r. re (path r)) rs)"
  by (induction rs) simp_all

text \<open>
  Claim C3. For every pattern and every archive, \<open>expandGlob\<close> yields the paths of exactly
  the records whose whole path (the string \<open>path r\<close>, leading \<^verbatim>\<open>/\<close> included) the compiled
  pattern accepts, once for each such record and in the order of the archive; a second
  call with the same pattern on the reader the first call leaves behind yields the same
  sequence.
\<close>

theorem C3_expandGlob_filters_in_order:
  "expandGlob pf this glob
     = map path (filter (\<lambda>r. globToRegExp pf glob (path r)) (assets this))
   \<and> fst (invoke pf (snd (invoke pf this (Call_expandGlob glob))) (Call_expandGlob glob))
     = Paths (expandGlob pf this glob)"
  by (simp add: expandGlob_def expandGlob_loop_filter method_expandGlob_reads)

theorem C3_expandGlob_example:
  "expandGlob example_platform example_reader (str ''/test_assets/*_1.txt'')
     = [str ''/test_assets/asset_1.txt'', str ''/test_assets/asset_1.txt'']"
proof -
  have "map path (filter (\<lambda>r. globToRegExp example_platform (str ''/test_assets/*_1.txt'') (path r))
          (assets example_reader))
        = [str ''/test_assets/asset_1.txt'', str ''/test_assets/asset_1.txt'']"
    by code_simp
  with C3_expandGlob_filters_in_order
         [of example_platform example_reader "str ''/test_assets/*_1.txt''"]
  show ?thesis by simp
qed

section \<open>Asynchronous reads\<close>

text \<open>
  Claim C6. For every path argument \<open>readFile\<close> returns a promise and never throws at the
  call: the promise is fulfilled with the bytes \<open>readFileSync\<close> returns, or rejected with
  the error \<open>readFileSync\<close> throws, \<open>NotFound\<close> included. \<open>readTextFile\<close> stands to
  \<open>readTextFileSync\<close> in the same way.
\<close>

theorem C6_async_reads_wrap_sync_reads:
  "readFile this p =
     Inr (case readFileSync this p of Inl e \<Rightarrow> Rejected e | Inr v \<Rightarrow> Fulfilled v)
   \<and> readTextFile this p =
     Inr (case readTextFileSync this p of Inl e \<Rightarrow> Rejected e | Inr v \<Rightarrow> Fulfilled v)"
  by (auto simp: readFile_def readTextFile_def readTextFileSync_def new_Promise_def
        async_def await_def split: sum.splits)

theorem C6_async_reads_example:
  "readFile example_reader (PathString (str ''/does/not/exist''))
     = Inr (Rejected (NotFound (str ''File not found: file:///does/not/exist'')))
   \<and> readTextFile example_reader (PathString (str ''/test_assets/asset_1.txt''))
     = Inr (Fulfilled (str ''hello world'' @ [10]))"
proof -
  have a: "readFileSync example_reader (PathString (str ''/does/not/exist''))
     = Inl (NotFound (str ''File not found: file:///does/not/exist''))"
    by code_simp
  have b: "readTextFileSync example_reader (PathString (str ''/test_assets/asset_1.txt''))
     = Inr (str ''hello world'' @ [10])"
    by code_simp
  from C6_async_reads_wrap_sync_reads [of example_reader "PathString (str ''/does/not/exist'')"]
       C6_async_reads_wrap_sync_reads
         [of example_reader "PathString (str ''/test_assets/asset_1.txt'')"]
  show ?thesis unfolding a b by simp
qed

section \<open>The reader does not change its archive\<close>

text \<open>
  Claim C9. After any sequence of calls of \<open>readFileSync\<close>, \<open>readFile\<close>,
  \<open>readTextFileSync\<close>, \<open>readTextFile\<close> and \<open>expandGlob\<close>, failing calls included, the
  object the last method leaves behind is the reader as it was before the first call,
  with the same array \<open>assets\<close>; so a call made after the sequence returns what the same
  call returns on the fresh reader. The proof goes through the body of each method: the
  bodies use \<open>assets_length\<close> and \<open>assets_get\<close> and no write.
\<close>

theorem C9_reader_unchanged_by_calls:
  "snd (invoke_all pf this calls) = this
   \<and> assets (snd (invoke_all pf this calls)) = assets this
   \<and> fst (invoke pf (snd (invoke_all pf this calls)) c) = fst (invoke pf this c)"
  by (simp add: invoke_all_this)

theorem C9_reader_unchanged_example:
  "snd (invoke_all example_platform example_reader
          [Call_readFileSync (PathString (str ''/does/not/exist'')),
           Call_readTextFile (PathString (str ''relative.txt'')),
           Call_expandGlob (str ''/*'')])
     = example_reader"
  using C9_reader_unchanged_by_calls [of example_platform example_reader
          "[Call_readFileSync (PathString (str ''/does/not/exist'')),
            Call_readTextFile (PathString (str ''relative.txt'')),
            Call_expandGlob (str ''/*'')]"]
  by simp

text \<open>
  A write would show: after \<^verbatim>\<open>push\<close> the object is not what it was.
\<close>

lemma assets_push_writes: "snd (assets_push r this) \<noteq> this"
  by (cases this) (simp add: assets_push_def)

section \<open>Discovery\<close>











subsection \<open>The loop over the entries of one pattern\<close>





text \<open>What a yielded reference holds: the encoded bytes of the file it names.\<close>

lemma file_loop_contents:
  "file_loop pf cwd d files es = (files', refs, err) \<Longrightarrow> ref \<in> set refs \<Longrightarrow>
     \<exists>B. Deno_readFile pf (systemPath ref) = Inr B \<and> contents (asset ref) = base64_encode B
        \<and> fromFileUrl_rooted (relative pf cwd (systemPath ref)) = Inr (path (asset ref))"
proof (induction es arbitrary: files files' refs err)
  case Nil
  then show ?case by simp
next
  case (Cons f es)
  show ?case
  proof (cases "isFile f \<and> \<not> isSymlink f \<and> (d \<or> file_path f \<notin> set files)")
    case False
    with Cons show ?thesis by auto
  next
    case True
    obtain fs rs er where rec: "file_loop pf cwd d (files @ [file_path f]) es = (fs, rs, er)"
      by (cases "file_loop pf cwd d (files @ [file_path f]) es") auto
    from True rec Cons.prems Cons.IH[OF rec] show ?thesis
      by (auto simp: Let_def split: sum.splits)
  qed
qed

subsection \<open>The loop over the patterns\<close>

lemma glob_loop_cases:
  assumes "glob_loop pf cwd d files (g # globs) = (refs, err)"
  obtains (inner) entries werr files' e where
      "fs_expandGlob pf g cwd = (entries, werr)"
      "file_loop pf cwd d files entries = (files', refs, Some e)" "err = Some e"
    | (walk) entries files' e where
      "fs_expandGlob pf g cwd = (entries, Some e)"
      "file_loop pf cwd d files entries = (files', refs, None)" "err = Some e"
    | (continue) entries files' rs rs' where
      "fs_expandGlob pf g cwd = (entries, None)"
      "file_loop pf cwd d files entries = (files', rs, None)"
      "glob_loop pf cwd d files' globs = (rs', err)" "refs = rs @ rs'"
  using assms
  by (auto split: prod.splits option.splits)




lemma glob_loop_contents:
  "glob_loop pf cwd d files globs = (refs, err) \<Longrightarrow> ref \<in> set refs \<Longrightarrow>
     \<exists>B. Deno_readFile pf (systemPath ref) = Inr B \<and> contents (asset ref) = base64_encode B
        \<and> fromFileUrl_rooted (relative pf cwd (systemPath ref)) = Inr (path (asset ref))"
proof (induction globs arbitrary: files refs err)
  case Nil
  then show ?case by simp
next
  case (Cons g globs)
  from Cons.prems(1) show ?case
  proof (cases rule: glob_loop_cases)
    case (inner entries werr files' e)
    from file_loop_contents[OF inner(2) Cons.prems(2)] show ?thesis .
  next
    case (walk entries files' e)
    from file_loop_contents[OF walk(2) Cons.prems(2)] show ?thesis .
  next
    case (continue entries files' rs rs')
    from Cons.prems(2) continue(4) consider "ref \<in> set rs" | "ref \<in> set rs'" by auto
    then show ?thesis
    proof cases
      case 1
      from file_loop_contents[OF continue(2) this] show ?thesis .
    next
      case 2
      from Cons.IH[OF continue(3) this] show ?thesis .
    qed
  qed
qed

subsection \<open>A run in which nothing fails\<close>



subsection \<open>What a run yields\<close>







text \<open>
  A name on which the conversion throws: the relative path \<^verbatim>\<open>x%ff.txt\<close> is pasted into
  the URL string as it is, \<^verbatim>\<open>fromFileUrl\<close> decodes \<^verbatim>\<open>%ff\<close>, which is not UTF-8, and the
  run ends with a \<open>URIError\<close> before it has yielded anything.
\<close>

lemma percent_in_a_name_ends_the_run:
  "generateAssetReferences failing_platform (str ''/repo'') [str ''*.txt''] False
     = ([], Some URIError)"
  by code_simp

text \<open>
  The path of a record is \<^verbatim>\<open>/\<close> followed by the relative path of the file when that
  relative path is made of plain characters and has no segment \<^verbatim>\<open>.\<close> or \<^verbatim>\<open>..\<close>.
\<close>

lemma discovered_path_plain:
  assumes "generateAssetReferences pf cwd globs d = (refs, err)" and "ref \<in> set refs"
    and "list_all plain_char (relative pf cwd (systemPath ref))"
    and "list_all (\<lambda>seg. seg \<noteq> str ''.'' \<and> seg \<noteq> str ''..'')
           (split_segments (relative pf cwd (systemPath ref)))"
  shows "path (asset ref) = str ''/'' @ relative pf cwd (systemPath ref)"
proof -
  from assms(1) have "glob_loop pf cwd d [] globs = (refs, err)"
    by (simp add: generateAssetReferences_def)
  from glob_loop_contents[OF this assms(2)]
  have "fromFileUrl_rooted (relative pf cwd (systemPath ref)) = Inr (path (asset ref))"
    by blast
  with fromFileUrl_rooted_plain[OF assms(3,4)] show ?thesis by simp
qed

text \<open>
  Claim C8 does not hold of the code. The relative path is pasted into the string
  \<^verbatim>\<open>file:///${rel}\<close> as it is, and the URL parser reads a \<^verbatim>\<open>#\<close> in it as the start of a
  fragment: the file \<^verbatim>\<open>/repo/a#b.txt\<close>, whose path relative to \<^verbatim>\<open>/repo\<close> is \<^verbatim>\<open>a#b.txt\<close>, is
  yielded under the path \<^verbatim>\<open>/a\<close> and not under \<^verbatim>\<open>/a#b.txt\<close>.
\<close>

theorem C8_fragment_cuts_the_path:
  "relative example_platform (str ''/repo'') (str ''/repo/a#b.txt'') = str ''a#b.txt''
   \<and> generateAssetReferences example_platform (str ''/repo'') [str ''*#*''] False
     = ([\<lparr>systemPath = str ''/repo/a#b.txt'',
          asset = \<lparr>path = str ''/a'', contents = str ''eA==''\<rparr>\<rparr>], None)"
  by code_simp

end
